theory Spec2Isabelle
  imports Complex_Main "HOL-Library.Option_ord"
begin

section \<open>Order analytics dashboard: the data model\<close>

text \<open>
  The program (\<^verbatim>\<open>main.py\<close>) builds three SQL aggregation queries over the tables
  \<^verbatim>\<open>orders\<close>, \<^verbatim>\<open>stores\<close> and \<^verbatim>\<open>delivery_men\<close>, runs them through
  \<^verbatim>\<open>pandas.read_sql\<close>, rounds the monetary columns of the resulting DataFrame and
  renders the result. The embedding below follows that structure: the tables are lists of
  records, the part of the SQL text that the Python code assembles (the WHERE clause) is a
  list of conditions, the fixed part of each statement is translated clause by clause, and
  the Python post-processing works on a DataFrame of named cells.

  Two idealisations are made throughout. Amounts of money are exact rationals, so the
  binary floating point of MySQL and pandas is not modelled. A date is a calendar triple;
  the text \<^verbatim>\<open>'YYYY-MM-DD'\<close> that the code interpolates into the statement and that
  MySQL reads back as a date is identified with the date it denotes.
\<close>

subsection \<open>Dates and timestamps\<close>

record date =
  year :: nat
  month :: nat
  day :: nat

record timestamp =
  ts_date :: date
  ts_seconds :: nat

text \<open>The SQL function \<^verbatim>\<open>DATE(created_at)\<close>: the calendar day of a timestamp.\<close>

definition DATE :: "timestamp \<Rightarrow> date" where
  "DATE t = ts_date t"

text \<open>Chronological order of calendar dates.\<close>

definition date_le :: "date \<Rightarrow> date \<Rightarrow> bool" where
  "date_le a b \<longleftrightarrow>
     year a < year b \<or>
     (year a = year b \<and> (month a < month b \<or> (month a = month b \<and> day a \<le> day b)))"

definition date_less :: "date \<Rightarrow> date \<Rightarrow> bool" where
  "date_less a b \<longleftrightarrow> date_le a b \<and> \<not> date_le b a"

text \<open>
  Python's \<^verbatim>\<open>str(d)\<close> for a \<^verbatim>\<open>datetime.date\<close> is \<^verbatim>\<open>d.isoformat()\<close>, that is
  \<^verbatim>\<open>'%04d-%02d-%02d'\<close>; \<^verbatim>\<open>str(None)\<close> is \<^verbatim>\<open>'None'\<close>.
\<close>

definition digit :: "nat \<Rightarrow> char" where
  "digit n = ''0123456789'' ! (n mod 10)"

fun decimal :: "nat \<Rightarrow> string" where
  "decimal n = (if n < 10 then [digit n] else decimal (n div 10) @ [digit n])"

declare decimal.simps [simp del]




subsection \<open>Tables\<close>

text \<open>
  Modelled from the spec: the table declarations are not part of the repository. Following
  the data model of the specification, an order has an id, an amount, a delivery charge, an
  additional charge, a status, a creation timestamp and references to a store and to a
  delivery man, none of them NULL; stores and delivery men have an id and a display name.
\<close>

record order =
  o_id :: nat
  order_amount :: rat
  delivery_charge :: rat
  additional_charge :: rat
  order_status :: string
  created_at :: timestamp
  store_id :: nat
  delivery_man_id :: nat

record store =
  s_id :: nat
  s_name :: string

record delivery_man =
  dm_id :: nat
  l_name :: string

text \<open>
  The database server as the program sees it: the three tables, whether it accepts a
  connection, and whether it executes a statement or fails while doing so.
\<close>

record server =
  orders :: "order list"
  stores :: "store list"
  delivery_men :: "delivery_man list"
  reachable :: bool
  responsive :: bool

subsection \<open>DataFrames\<close>

datatype cell = NullV | IntV int | NumV rat | StrV string

type_synonym row = "(string \<times> cell) list"

record dataframe =
  columns :: "string list"
  rows :: "row list"

text \<open>\<^verbatim>\<open>df.empty\<close>: some axis of the frame has length 0.\<close>

definition df_empty :: "dataframe \<Rightarrow> bool" where
  "df_empty df \<longleftrightarrow> rows df = [] \<or> columns df = []"

definition cell_at :: "row \<Rightarrow> string \<Rightarrow> cell option" where
  "cell_at r col = map_of r col"

definition num_at :: "row \<Rightarrow> string \<Rightarrow> rat option" where
  "num_at r col = (case map_of r col of Some (NumV x) \<Rightarrow> Some x | _ \<Rightarrow> None)"

subsection \<open>Rounding\<close>

text \<open>
  \<^verbatim>\<open>Series.round(2)\<close> is numpy's \<^verbatim>\<open>around\<close>: scale by 100, round to the nearest integer
  with ties going to the even one, scale back.

  Amounts are exact rational numbers here, and the three steps are carried out exactly. The
  code carries them out on binary doubles, where the product with 100 is itself rounded: an
  amount written with a 5 in the third decimal place, such as 1.015 or 0.575, is stored
  just below the tie, and the code returns 1.01 and 0.57 where the exact rule gives 1.02
  and 0.58. Away from such amounts the two agree up to the representation error of a
  double. In both, the result is a number of whole cents at most half a cent from the
  amount; the properties about rounding are stated in these terms and none of them depends
  on the direction in which a tie goes.
\<close>

definition rint :: "rat \<Rightarrow> int" where
  "rint x =
     (let f = \<lfloor>x\<rfloor>; d = x - of_int f
      in if d < 1 / 2 then f else if 1 / 2 < d then f + 1 else if even f then f else f + 1)"

definition round2 :: "rat \<Rightarrow> rat" where
  "round2 x = of_int (rint (x * 100)) / 100"

text \<open>Rounding a column leaves integers, texts and missing values as they are.\<close>

fun round_cell :: "cell \<Rightarrow> cell" where
  "round_cell (NumV x) = NumV (round2 x)"
| "round_cell c = c"

text \<open>\<^verbatim>\<open>df[col] = f(df[col])\<close>\<close>

definition set_column :: "string \<Rightarrow> (cell \<Rightarrow> cell) \<Rightarrow> dataframe \<Rightarrow> dataframe" where
  "set_column col f df =
     df\<lparr>rows := map (map (\<lambda>(k, v). if k = col then (k, f v) else (k, v))) (rows df)\<rparr>"

text \<open>
  The loop \<^verbatim>\<open>for col in monetary_columns: if col in df.columns: df[col] = df[col].round(2)\<close>
\<close>

fun round_columns :: "string list \<Rightarrow> dataframe \<Rightarrow> dataframe" where
  "round_columns [] df = df"
| "round_columns (col # cols) df =
     round_columns cols (if col \<in> set (columns df) then set_column col round_cell df else df)"

section \<open>The SQL statements\<close>

subsection \<open>The WHERE clause\<close>

text \<open>
  The conjuncts of a WHERE clause: \<^verbatim>\<open>order_status = '...'\<close>,
  \<^verbatim>\<open>DATE(created_at) BETWEEN '...' AND '...'\<close> and \<^verbatim>\<open>DATE(created_at) = '...'\<close>.
\<close>

datatype cond = Status_is string | Date_between date date | Date_is date

fun cond_holds :: "cond \<Rightarrow> order \<Rightarrow> bool" where
  "cond_holds (Status_is s) ord \<longleftrightarrow> order_status ord = s"
| "cond_holds (Date_between a b) ord \<longleftrightarrow> date_le a (DATE (created_at ord)) \<and> date_le (DATE (created_at ord)) b"
| "cond_holds (Date_is a) ord \<longleftrightarrow> DATE (created_at ord) = a"

definition where_holds :: "cond list \<Rightarrow> order \<Rightarrow> bool" where
  "where_holds cs ord \<longleftrightarrow> list_all (\<lambda>c. cond_holds c ord) cs"

text \<open>
  The text the three functions append to the statement:
  \<^verbatim>\<open>if start_date and end_date: ... BETWEEN ... elif start_date: ... = ...\<close>.
  A \<^verbatim>\<open>datetime.date\<close> is always true as a condition, \<^verbatim>\<open>None\<close> is false.
\<close>

definition date_clause :: "date option \<Rightarrow> date option \<Rightarrow> cond list" where
  "date_clause start_date end_date =
     (if start_date \<noteq> None \<and> end_date \<noteq> None
        then [Date_between (the start_date) (the end_date)]
      else if start_date \<noteq> None
        then [Date_is (the start_date)]
      else [])"

subsection \<open>Aggregates, joins, grouping and ordering\<close>

text \<open>\<^verbatim>\<open>SUM\<close> of no rows is NULL; \<^verbatim>\<open>COUNT\<close> of a column that is never NULL counts the rows.\<close>

definition sql_sum :: "('a \<Rightarrow> rat) \<Rightarrow> 'a list \<Rightarrow> rat option" where
  "sql_sum f xs = (if xs = [] then None else Some (sum_list (map f xs)))"

definition sql_count :: "'a list \<Rightarrow> int" where
  "sql_count xs = int (length xs)"

definition coalesce :: "rat option \<Rightarrow> rat \<Rightarrow> rat" where
  "coalesce v d = (case v of None \<Rightarrow> d | Some x \<Rightarrow> x)"

definition sql_cell :: "rat option \<Rightarrow> cell" where
  "sql_cell v = (case v of None \<Rightarrow> NullV | Some x \<Rightarrow> NumV x)"

text \<open>\<^verbatim>\<open>order_amount - delivery_charge - additional_charge\<close>\<close>

definition net :: "order \<Rightarrow> rat" where
  "net ord = order_amount ord - delivery_charge ord - additional_charge ord"

text \<open>\<^verbatim>\<open>FROM orders o JOIN stores s ON o.store_id = s.id\<close>\<close>

definition join_stores :: "server \<Rightarrow> (order \<times> store) list" where
  "join_stores srv = [(ord, s). ord \<leftarrow> orders srv, s \<leftarrow> stores srv, store_id ord = s_id s]"

text \<open>\<^verbatim>\<open>FROM orders o JOIN delivery_men dm ON o.delivery_man_id = dm.id\<close>\<close>

definition join_delivery_men :: "server \<Rightarrow> (order \<times> delivery_man) list" where
  "join_delivery_men srv =
     [(ord, dm). ord \<leftarrow> orders srv, dm \<leftarrow> delivery_men srv, delivery_man_id ord = dm_id dm]"

text \<open>\<^verbatim>\<open>GROUP BY\<close>: one group for each value of the key that occurs.\<close>

definition group_by :: "('r \<Rightarrow> 'k) \<Rightarrow> 'r list \<Rightarrow> ('k \<times> 'r list) list" where
  "group_by key rs = map (\<lambda>k. (k, filter (\<lambda>r. key r = k) rs)) (remdups (map key rs))"

text \<open>
  \<^verbatim>\<open>ORDER BY ... DESC\<close>: largest first, NULL last. SQL leaves the order of rows with equal
  keys open; the model fixes one.
\<close>

definition order_by_desc :: "('g \<Rightarrow> rat option) \<Rightarrow> 'g list \<Rightarrow> 'g list" where
  "order_by_desc f gs = rev (sort_key f gs)"

subsection \<open>The three statements\<close>

datatype query = Final_query "cond list" | Restaurant_query "cond list" | Delivery_query "cond list"

definition final_columns :: "string list" where
  "final_columns = [''total_orders'', ''total_order_amount'', ''total_restaurant_revenue'',
     ''total_delivery_charge'', ''total_additional_charge'']"

definition final_row :: "order list \<Rightarrow> row" where
  "final_row os =
     [(''total_orders'', IntV (sql_count os)),
      (''total_order_amount'', NumV (coalesce (sql_sum order_amount os) 0)),
      (''total_restaurant_revenue'', NumV (coalesce (sql_sum net os) 0)),
      (''total_delivery_charge'', NumV (coalesce (sql_sum delivery_charge os) 0)),
      (''total_additional_charge'', NumV (coalesce (sql_sum additional_charge os) 0))]"

text \<open>An aggregate without \<^verbatim>\<open>GROUP BY\<close> yields exactly one row.\<close>

definition final_sql :: "cond list \<Rightarrow> server \<Rightarrow> dataframe" where
  "final_sql conds srv =
     \<lparr>columns = final_columns, rows = [final_row (filter (where_holds conds) (orders srv))]\<rparr>"

definition restaurant_columns :: "string list" where
  "restaurant_columns = [''restaurant_name'', ''total_orders'', ''total_order_amount'',
     ''total_delivery_fee'', ''total_additional_charge'', ''total_revenue'']"

definition restaurant_row :: "(nat \<times> string) \<times> (order \<times> store) list \<Rightarrow> row" where
  "restaurant_row kg =
     [(''restaurant_name'', StrV (snd (fst kg))),
      (''total_orders'', IntV (sql_count (snd kg))),
      (''total_order_amount'', sql_cell (sql_sum (\<lambda>r. order_amount (fst r)) (snd kg))),
      (''total_delivery_fee'', sql_cell (sql_sum (\<lambda>r. delivery_charge (fst r)) (snd kg))),
      (''total_additional_charge'', sql_cell (sql_sum (\<lambda>r. additional_charge (fst r)) (snd kg))),
      (''total_revenue'', sql_cell (sql_sum (\<lambda>r. net (fst r)) (snd kg)))]"

text \<open>The groups of the per-restaurant statement, in the order of the result.\<close>

definition restaurant_groups :: "cond list \<Rightarrow> server \<Rightarrow> ((nat \<times> string) \<times> (order \<times> store) list) list" where
  "restaurant_groups conds srv =
     (let matching = filter (\<lambda>r. where_holds conds (fst r)) (join_stores srv);
          groups = group_by (\<lambda>r. (s_id (snd r), s_name (snd r))) matching
      in order_by_desc (\<lambda>kg. sql_sum (\<lambda>r. net (fst r)) (snd kg)) groups)"

definition restaurant_sql :: "cond list \<Rightarrow> server \<Rightarrow> dataframe" where
  "restaurant_sql conds srv =
     \<lparr>columns = restaurant_columns, rows = map restaurant_row (restaurant_groups conds srv)\<rparr>"

definition delivery_columns :: "string list" where
  "delivery_columns = [''delivery_man_name'', ''total_deliveries'', ''total_order_amount'',
     ''total_delivery_fee'']"

definition delivery_row :: "(nat \<times> string) \<times> (order \<times> delivery_man) list \<Rightarrow> row" where
  "delivery_row kg =
     [(''delivery_man_name'', StrV (snd (fst kg))),
      (''total_deliveries'', IntV (sql_count (snd kg))),
      (''total_order_amount'', sql_cell (sql_sum (\<lambda>r. order_amount (fst r)) (snd kg))),
      (''total_delivery_fee'', sql_cell (sql_sum (\<lambda>r. delivery_charge (fst r)) (snd kg)))]"

text \<open>The groups of the per-courier statement, in the order of the result.\<close>

definition delivery_groups ::
  "cond list \<Rightarrow> server \<Rightarrow> ((nat \<times> string) \<times> (order \<times> delivery_man) list) list" where
  "delivery_groups conds srv =
     (let matching = filter (\<lambda>r. where_holds conds (fst r)) (join_delivery_men srv);
          groups = group_by (\<lambda>r. (dm_id (snd r), l_name (snd r))) matching
      in order_by_desc (\<lambda>kg. sql_sum (\<lambda>r. order_amount (fst r)) (snd kg)) groups)"

definition delivery_sql :: "cond list \<Rightarrow> server \<Rightarrow> dataframe" where
  "delivery_sql conds srv =
     \<lparr>columns = delivery_columns, rows = map delivery_row (delivery_groups conds srv)\<rparr>"

fun run_query :: "server \<Rightarrow> query \<Rightarrow> dataframe" where
  "run_query srv (Final_query conds) = final_sql conds srv"
| "run_query srv (Restaurant_query conds) = restaurant_sql conds srv"
| "run_query srv (Delivery_query conds) = delivery_sql conds srv"

section \<open>The Python functions\<close>

subsection \<open>Connections and errors\<close>

text \<open>
  Exceptions are values. \<^verbatim>\<open>ConnectionError\<close> is what \<^verbatim>\<open>pymysql.connect\<close> raises when
  the server cannot be reached, \<^verbatim>\<open>DatabaseError\<close> what \<^verbatim>\<open>read_sql\<close> raises when the
  statement fails, \<^verbatim>\<open>InterfaceError\<close> what it raises on a connection that is closed;
  \<^verbatim>\<open>IndexError\<close> and \<^verbatim>\<open>KeyError\<close> come from \<^verbatim>\<open>df[col].iloc[0]\<close>.
\<close>

datatype error = ConnectionError | DatabaseError | InterfaceError | IndexError | KeyError

text \<open>The connections of the process: the handles that are open, and the next fresh one.\<close>

record session =
  live :: "nat list"
  next_handle :: nat

definition get_db_connection :: "server \<Rightarrow> session \<Rightarrow> (error + nat) \<times> session" where
  "get_db_connection srv ss =
     (if reachable srv
        then (Inr (next_handle ss),
              ss\<lparr>live := next_handle ss # live ss, next_handle := Suc (next_handle ss)\<rparr>)
      else (Inl ConnectionError, ss))"

text \<open>\<^verbatim>\<open>conn.close()\<close>\<close>

definition conn_close :: "nat \<Rightarrow> session \<Rightarrow> session" where
  "conn_close conn ss = ss\<lparr>live := removeAll conn (live ss)\<rparr>"

text \<open>\<^verbatim>\<open>pd.read_sql(query, conn)\<close>\<close>

definition read_sql :: "server \<Rightarrow> query \<Rightarrow> nat \<Rightarrow> session \<Rightarrow> error + dataframe" where
  "read_sql srv query conn ss =
     (if conn \<notin> set (live ss) then Inl InterfaceError
      else if \<not> responsive srv then Inl DatabaseError
      else Inr (run_query srv query))"

subsection \<open>The aggregation functions\<close>

text \<open>
  Each function opens a connection, assembles its statement, reads the result, rounds the
  monetary columns if the frame is not empty, closes the connection and returns the frame.
  An exception of \<^verbatim>\<open>read_sql\<close> leaves the function at once: there is no
  \<^verbatim>\<open>try\<close>/\<^verbatim>\<open>finally\<close> and no \<^verbatim>\<open>with\<close> around it.
\<close>

definition get_restaurant_stats ::
  "server \<Rightarrow> date option \<Rightarrow> date option \<Rightarrow> session \<Rightarrow> (error + dataframe) \<times> session" where
  "get_restaurant_stats srv start_date end_date ss =
     (case get_db_connection srv ss of
        (Inl e, ss1) \<Rightarrow> (Inl e, ss1)
      | (Inr conn, ss1) \<Rightarrow>
          (let query = Restaurant_query (Status_is ''delivered'' # date_clause start_date end_date)
           in case read_sql srv query conn ss1 of
                Inl e \<Rightarrow> (Inl e, ss1)
              | Inr df \<Rightarrow>
                  (let df' = (if \<not> df_empty df
                              then round_columns [''total_order_amount'', ''total_delivery_fee'',
                                     ''total_additional_charge'', ''total_revenue''] df
                              else df)
                   in (Inr df', conn_close conn ss1))))"

definition get_delivery_stats ::
  "server \<Rightarrow> date option \<Rightarrow> date option \<Rightarrow> session \<Rightarrow> (error + dataframe) \<times> session" where
  "get_delivery_stats srv start_date end_date ss =
     (case get_db_connection srv ss of
        (Inl e, ss1) \<Rightarrow> (Inl e, ss1)
      | (Inr conn, ss1) \<Rightarrow>
          (let query = Delivery_query (Status_is ''delivered'' # date_clause start_date end_date)
           in case read_sql srv query conn ss1 of
                Inl e \<Rightarrow> (Inl e, ss1)
              | Inr df \<Rightarrow>
                  (let df' = (if \<not> df_empty df
                              then round_columns [''total_order_amount'', ''total_delivery_fee''] df
                              else df)
                   in (Inr df', conn_close conn ss1))))"

definition get_final_stats ::
  "server \<Rightarrow> date option \<Rightarrow> date option \<Rightarrow> session \<Rightarrow> (error + dataframe) \<times> session" where
  "get_final_stats srv start_date end_date ss =
     (case get_db_connection srv ss of
        (Inl e, ss1) \<Rightarrow> (Inl e, ss1)
      | (Inr conn, ss1) \<Rightarrow>
          (let query = Final_query (Status_is ''delivered'' # date_clause start_date end_date)
           in case read_sql srv query conn ss1 of
                Inl e \<Rightarrow> (Inl e, ss1)
              | Inr df \<Rightarrow>
                  (let df' = (if \<not> df_empty df
                              then round_columns [''total_order_amount'', ''total_restaurant_revenue'',
                                     ''total_delivery_charge'', ''total_additional_charge''] df
                              else df)
                   in (Inr df', conn_close conn ss1))))"

subsection \<open>Export and the page\<close>

text \<open>
  \<^verbatim>\<open>export_to_excel\<close> hands the frame to pandas' \<^verbatim>\<open>to_excel\<close> with \<^verbatim>\<open>index=False\<close>
  and returns the bytes written. The writer is a library outside the repository and is a
  parameter here.
\<close>

definition export_to_excel :: "(dataframe \<Rightarrow> bool \<Rightarrow> 'b) \<Rightarrow> dataframe \<Rightarrow> 'b" where
  "export_to_excel to_excel df = to_excel df False"












section \<open>The spreadsheet\<close>

text \<open>
  Modelled from the spec: the spreadsheet writer and a reader are pandas and xlsxwriter,
  outside the repository. A workbook is the list of its sheets, a sheet the list of its
  rows, a row the list of its cells; a cell is blank, a number or a text. Styling and the
  byte container are left out.
\<close>

datatype xcell = Blank | Number rat | Text string

type_synonym sheet = "xcell list list"

record workbook =
  sheets :: "sheet list"

text \<open>
  Modelled from the spec: how a value of a frame is written. A spreadsheet has one kind of
  number, so a count is written as the number it is; a missing value leaves the cell blank.
\<close>

fun cell_out :: "cell \<Rightarrow> xcell" where
  "cell_out NullV = Blank"
| "cell_out (IntV n) = Number (of_int n)"
| "cell_out (NumV x) = Number x"
| "cell_out (StrV s) = Text s"

text \<open>
  Modelled from the spec: \<^verbatim>\<open>df.to_excel(writer, index=index)\<close> writes the rows as a single
  sheet, the header row being the column names in the order given, then one data row per
  result row, each cell looked up by the name of its column. With \<^verbatim>\<open>index=True\<close> every row
  is preceded by a cell for the row label: blank in the header, the position of the row
  below it.
\<close>

definition df_to_excel :: "dataframe \<Rightarrow> bool \<Rightarrow> workbook" where
  "df_to_excel df index =
     \<lparr>sheets =
        [((if index then [Blank] else []) @ map Text (columns df)) #
         map (\<lambda>ir. (if index then [Number (of_nat (fst ir))] else []) @
                    map (\<lambda>col. case map_of (snd ir) col of None \<Rightarrow> Blank | Some c \<Rightarrow> cell_out c)
                      (columns df))
           (enumerate 0 (rows df))]\<rparr>"

text \<open>
  Modelled from the spec: how a cell is read back. Every number is read as a number with a
  fraction part.
\<close>

fun cell_in :: "xcell \<Rightarrow> cell" where
  "cell_in Blank = NullV"
| "cell_in (Number x) = NumV x"
| "cell_in (Text s) = StrV s"

text \<open>
  Modelled from the spec: the column names a reader takes from the first row of a sheet; a
  cell without a text gets a name made from its position.
\<close>

definition header_names :: "xcell list \<Rightarrow> string list" where
  "header_names cells =
     map (\<lambda>ic. case snd ic of Text s \<Rightarrow> s | _ \<Rightarrow> ''Unnamed: '' @ decimal (fst ic))
       (enumerate 0 cells)"

text \<open>
  Modelled from the spec: re-reading a spreadsheet. The reader takes the first sheet, its
  first row as the header and every further row as a row of the frame, cell by cell under
  the names of the header. A workbook without a sheet cannot be read.
\<close>

definition read_excel :: "workbook \<Rightarrow> dataframe option" where
  "read_excel wb =
     (case sheets wb of
        [] \<Rightarrow> None
      | sh # _ \<Rightarrow>
          (case sh of
             [] \<Rightarrow> Some \<lparr>columns = [], rows = []\<rparr>
           | header # body \<Rightarrow>
               Some \<lparr>columns = header_names header,
                     rows = map (\<lambda>r. zip (header_names header) (map cell_in r)) body\<rparr>))"

section \<open>Notions used to state the properties\<close>

text \<open>
  The date range of the specification: empty, a single day, or a start and an end. It is
  passed to the functions as their two optional arguments.
\<close>

datatype date_range = Empty | Single date | Range date date

fun range_start :: "date_range \<Rightarrow> date option" where
  "range_start Empty = None"
| "range_start (Single d) = Some d"
| "range_start (Range a b) = Some a"

fun range_end :: "date_range \<Rightarrow> date option" where
  "range_end Empty = None"
| "range_end (Single d) = None"
| "range_end (Range a b) = Some b"

text \<open>
  The date filter policy in the specification's words: between start and end, both
  included; equal to the single day; no restriction for the empty range.
\<close>

fun in_range :: "date_range \<Rightarrow> date \<Rightarrow> bool" where
  "in_range Empty d \<longleftrightarrow> True"
| "in_range (Single a) d \<longleftrightarrow> d = a"
| "in_range (Range a b) d \<longleftrightarrow> date_le a d \<and> date_le d b"

text \<open>The server with its orders table cut down to the orders that satisfy \<open>P\<close>.\<close>

definition restrict_orders :: "(order \<Rightarrow> bool) \<Rightarrow> server \<Rightarrow> server" where
  "restrict_orders P srv = srv\<lparr>orders := filter P (orders srv)\<rparr>"

text \<open>The server with the creation time of every order replaced.\<close>

definition redate :: "(order \<Rightarrow> timestamp) \<Rightarrow> server \<Rightarrow> server" where
  "redate g srv = srv\<lparr>orders := map (\<lambda>ord. ord\<lparr>created_at := g ord\<rparr>) (orders srv)\<rparr>"

text \<open>The three aggregation queries under one name, each with its statement.\<close>

datatype report = Overall | Per_restaurant | Per_courier

fun aggregate ::
  "report \<Rightarrow> server \<Rightarrow> date option \<Rightarrow> date option \<Rightarrow> session \<Rightarrow> (error + dataframe) \<times> session" where
  "aggregate Overall = get_final_stats"
| "aggregate Per_restaurant = get_restaurant_stats"
| "aggregate Per_courier = get_delivery_stats"

fun statement :: "report \<Rightarrow> cond list \<Rightarrow> query" where
  "statement Overall = Final_query"
| "statement Per_restaurant = Restaurant_query"
| "statement Per_courier = Delivery_query"

text \<open>The names of the monetary columns, over the three results.\<close>

definition monetary :: "string list" where
  "monetary = [''total_order_amount'', ''total_delivery_fee'', ''total_delivery_charge'',
     ''total_additional_charge'', ''total_revenue'', ''total_restaurant_revenue'']"

text \<open>The overall result for no orders: one row, the count and the four sums all 0.\<close>

definition zero_totals :: dataframe where
  "zero_totals =
     \<lparr>columns = final_columns,
      rows = [[(''total_orders'', IntV 0), (''total_order_amount'', NumV 0),
               (''total_restaurant_revenue'', NumV 0), (''total_delivery_charge'', NumV 0),
               (''total_additional_charge'', NumV 0)]]\<rparr>"


text \<open>An amount with at most two decimal places, and a table of orders with such amounts only.\<close>

definition whole_cents :: "rat \<Rightarrow> bool" where
  "whole_cents x \<longleftrightarrow> of_int \<lfloor>x * 100\<rfloor> = x * 100"


text \<open>The rows of a result; none if the call ended in an exception.\<close>

definition result_rows :: "(error + dataframe) \<times> session \<Rightarrow> row list" where
  "result_rows res = (case fst res of Inl e \<Rightarrow> [] | Inr df \<Rightarrow> rows df)"



text \<open>The session after a connection has been opened.\<close>

definition opened :: "session \<Rightarrow> session" where
  "opened ss = ss\<lparr>live := next_handle ss # live ss, next_handle := Suc (next_handle ss)\<rparr>"

text \<open>What the rounding loop over the columns \<open>cs\<close> does to one cell of a frame with columns \<open>cols\<close>.\<close>

definition round_in :: "string list \<Rightarrow> string list \<Rightarrow> string \<times> cell \<Rightarrow> string \<times> cell" where
  "round_in cs cols kv =
     (fst kv, if fst kv \<in> set cs \<and> fst kv \<in> set cols then round_cell (snd kv) else snd kv)"

text \<open>
  A frame as pandas holds it: distinct column names, and every row with one cell for each
  column, in the order of the columns.
\<close>

definition well_formed :: "dataframe \<Rightarrow> bool" where
  "well_formed df \<longleftrightarrow> distinct (columns df) \<and> list_all (\<lambda>r. map fst r = columns df) (rows df)"

text \<open>
  Equality of two cells by value: two numeric cells hold the same number, whether stored
  as a count or with a fraction part; any other two cells are the same cell.
\<close>

definition number_of :: "cell \<Rightarrow> rat option" where
  "number_of c = (case c of IntV n \<Rightarrow> Some (of_int n) | NumV x \<Rightarrow> Some x | _ \<Rightarrow> None)"

definition same_value :: "cell \<Rightarrow> cell \<Rightarrow> bool" where
  "same_value a b \<longleftrightarrow>
     (case (number_of a, number_of b) of
        (Some x, Some y) \<Rightarrow> x = y
      | (None, None) \<Rightarrow> a = b
      | _ \<Rightarrow> False)"

section \<open>Sample data\<close>

text \<open>
  A small database: three delivered orders of one restaurant on one day (100/10/5, 200/20/0
  and 50/5/5 for amount, delivery charge and additional charge), a delivered order of a
  second restaurant with an amount of three decimal places, and an order that is not
  delivered. With it a session without open connections and a date selection from the two
  pickers.
\<close>

definition jan :: "nat \<Rightarrow> timestamp" where
  "jan d = \<lparr>ts_date = \<lparr>year = 2024, month = 1, day = d\<rparr>, ts_seconds = 43200\<rparr>"

definition demo_server :: server where
  "demo_server =
     \<lparr>orders =
        [\<lparr>o_id = 1, order_amount = 100, delivery_charge = 10, additional_charge = 5,
          order_status = ''delivered'', created_at = jan 5, store_id = 1, delivery_man_id = 1\<rparr>,
         \<lparr>o_id = 2, order_amount = 200, delivery_charge = 20, additional_charge = 0,
          order_status = ''delivered'', created_at = jan 5, store_id = 1, delivery_man_id = 2\<rparr>,
         \<lparr>o_id = 3, order_amount = 50, delivery_charge = 5, additional_charge = 5,
          order_status = ''delivered'', created_at = jan 5, store_id = 1, delivery_man_id = 1\<rparr>,
         \<lparr>o_id = 4, order_amount = 80126 / 1000, delivery_charge = 8, additional_charge = 2,
          order_status = ''delivered'', created_at = jan 6, store_id = 2, delivery_man_id = 2\<rparr>,
         \<lparr>o_id = 5, order_amount = 999, delivery_charge = 9, additional_charge = 9,
          order_status = ''pending'', created_at = jan 5, store_id = 2, delivery_man_id = 1\<rparr>],
      stores = [\<lparr>s_id = 1, s_name = ''Cafe X''\<rparr>, \<lparr>s_id = 2, s_name = ''Diner Y''\<rparr>],
      delivery_men = [\<lparr>dm_id = 1, l_name = ''Rao''\<rparr>, \<lparr>dm_id = 2, l_name = ''Iyer''\<rparr>],
      reachable = True, responsive = True\<rparr>"

definition fresh_session :: session where
  "fresh_session = \<lparr>live = [], next_handle = 0\<rparr>"


text \<open>The per-restaurant result on this database.\<close>

definition demo_frame :: dataframe where
  "demo_frame =
     \<lparr>columns = restaurant_columns,
      rows = [[(''restaurant_name'', StrV ''Cafe X''), (''total_orders'', IntV 3),
               (''total_order_amount'', NumV 350), (''total_delivery_fee'', NumV 35),
               (''total_additional_charge'', NumV 10), (''total_revenue'', NumV 305)],
              [(''restaurant_name'', StrV ''Diner Y''), (''total_orders'', IntV 1),
               (''total_order_amount'', NumV (8013 / 100)), (''total_delivery_fee'', NumV 8),
               (''total_additional_charge'', NumV 2), (''total_revenue'', NumV (7013 / 100))]]\<rparr>"

section \<open>Auxiliary facts\<close>

subsection \<open>Rounding\<close>

lemma rint_of_int: "rint (of_int n) = n"
  by (simp add: rint_def)

lemma rint_ge_floor: "\<lfloor>x\<rfloor> \<le> rint x"
  by (simp add: rint_def Let_def)

lemma rint_le_floor1: "rint x \<le> \<lfloor>x\<rfloor> + 1"
  by (simp add: rint_def Let_def)

lemma rint_mono:
  assumes "x \<le> y" shows "rint x \<le> rint y"
proof -
  have "\<lfloor>x\<rfloor> \<le> \<lfloor>y\<rfloor>" using assms by (rule floor_mono)
  then consider (same) "\<lfloor>x\<rfloor> = \<lfloor>y\<rfloor>" | (less) "\<lfloor>x\<rfloor> < \<lfloor>y\<rfloor>" by linarith
  then show ?thesis
  proof cases
    case same
    then show ?thesis using assms by (simp add: rint_def Let_def)
  next
    case less
    have "rint x \<le> \<lfloor>x\<rfloor> + 1" by (rule rint_le_floor1)
    also have "\<dots> \<le> \<lfloor>y\<rfloor>" using less by simp
    also have "\<dots> \<le> rint y" by (rule rint_ge_floor)
    finally show ?thesis .
  qed
qed

lemma round2_mono: "x \<le> y \<Longrightarrow> round2 x \<le> round2 y"
  by (simp add: round2_def rint_mono divide_right_mono)

lemma round2_idem: "round2 (round2 x) = round2 x"
  by (simp add: round2_def rint_of_int)

lemma rint_err: "\<bar>of_int (rint x) - x\<bar> \<le> 1 / 2"
proof -
  have lo: "of_int \<lfloor>x\<rfloor> \<le> x" by simp
  have hi: "x < of_int \<lfloor>x\<rfloor> + 1" by linarith
  show ?thesis
    using lo hi unfolding rint_def Let_def by (simp split: if_splits)
qed

lemma round2_err: "\<bar>round2 x - x\<bar> \<le> 1 / 200"
  using rint_err[of "x * 100"] by (simp add: round2_def field_simps)

subsection \<open>The rounding loop\<close>

lemma columns_set_column: "columns (set_column c f df) = columns df"
  by (simp add: set_column_def)

lemma columns_round_columns: "columns (round_columns cs df) = columns df"
  by (induction cs arbitrary: df) (simp_all add: columns_set_column)

lemma round_cell_idem: "round_cell (round_cell v) = round_cell v"
  by (cases v) (simp_all add: round2_idem)

lemma rows_round_columns:
  "rows (round_columns cs df) = map (map (round_in cs (columns df))) (rows df)"
proof (induction cs arbitrary: df)
  case Nil
  show ?case by (simp add: round_in_def map_idI)
next
  case (Cons c cs)
  show ?case
    by (auto simp add: Cons columns_set_column set_column_def round_in_def round_cell_idem
        split: prod.splits)
qed

lemma map_of_round_in:
  "map_of (map (round_in cs cols) r) c =
     map_option (\<lambda>v. if c \<in> set cs \<and> c \<in> set cols then round_cell v else v) (map_of r c)"
  by (induction r) (auto simp add: round_in_def)

lemma round_columns_no_rows: "rows df = [] \<Longrightarrow> round_columns cs df = df"
  by (induction cs arbitrary: df) (simp_all add: set_column_def)

subsection \<open>The functions, path by path\<close>

lemma where_holds_Cons:
  "where_holds (c # cs) = (\<lambda>ord. cond_holds c ord \<and> where_holds cs ord)"
  by (simp add: where_holds_def fun_eq_iff)

lemma df_empty_final: "\<not> df_empty (final_sql conds srv)"
  by (simp add: df_empty_def final_sql_def final_columns_def)

lemma df_empty_restaurant:
  "df_empty (restaurant_sql conds srv) \<longleftrightarrow> rows (restaurant_sql conds srv) = []"
  by (simp add: df_empty_def restaurant_sql_def restaurant_columns_def Let_def)

lemma df_empty_delivery:
  "df_empty (delivery_sql conds srv) \<longleftrightarrow> rows (delivery_sql conds srv) = []"
  by (simp add: df_empty_def delivery_sql_def delivery_columns_def Let_def)

lemma get_final_stats_eq:
  "get_final_stats srv s e ss =
     (if \<not> reachable srv then (Inl ConnectionError, ss)
      else if \<not> responsive srv then (Inl DatabaseError, opened ss)
      else (Inr (round_columns [''total_order_amount'', ''total_restaurant_revenue'',
                   ''total_delivery_charge'', ''total_additional_charge'']
                  (final_sql (Status_is ''delivered'' # date_clause s e) srv)),
            conn_close (next_handle ss) (opened ss)))"
  by (simp add: get_final_stats_def get_db_connection_def read_sql_def opened_def df_empty_final)

lemma get_restaurant_stats_eq:
  "get_restaurant_stats srv s e ss =
     (if \<not> reachable srv then (Inl ConnectionError, ss)
      else if \<not> responsive srv then (Inl DatabaseError, opened ss)
      else (Inr (round_columns [''total_order_amount'', ''total_delivery_fee'',
                   ''total_additional_charge'', ''total_revenue'']
                  (restaurant_sql (Status_is ''delivered'' # date_clause s e) srv)),
            conn_close (next_handle ss) (opened ss)))"
  by (simp add: get_restaurant_stats_def get_db_connection_def read_sql_def opened_def
      df_empty_restaurant round_columns_no_rows del: round_columns.simps)

lemma get_delivery_stats_eq:
  "get_delivery_stats srv s e ss =
     (if \<not> reachable srv then (Inl ConnectionError, ss)
      else if \<not> responsive srv then (Inl DatabaseError, opened ss)
      else (Inr (round_columns [''total_order_amount'', ''total_delivery_fee'']
                  (delivery_sql (Status_is ''delivered'' # date_clause s e) srv)),
            conn_close (next_handle ss) (opened ss)))"
  by (simp add: get_delivery_stats_def get_db_connection_def read_sql_def opened_def
      df_empty_delivery round_columns_no_rows del: round_columns.simps)

subsection \<open>Restricting the orders table\<close>

lemma join_stores_filter:
  "join_stores (restrict_orders P srv) = filter (\<lambda>r. P (fst r)) (join_stores srv)"
proof -
  have "concat (map (\<lambda>ord. concat (map (\<lambda>s. if store_id ord = s_id s then [(ord, s)] else []) ss)) (filter P os))
      = filter (\<lambda>r. P (fst r)) (concat (map (\<lambda>ord. concat (map (\<lambda>s. if store_id ord = s_id s then [(ord, s)] else []) ss)) os))"
    for os :: "order list" and ss :: "store list"
  proof (induction os)
    case Nil show ?case by simp
  next
    case (Cons a os)
    have "filter (\<lambda>r. P (fst r)) (concat (map (\<lambda>s. if store_id a = s_id s then [(a, s)] else []) ss))
        = (if P a then concat (map (\<lambda>s. if store_id a = s_id s then [(a, s)] else []) ss) else [])"
      by (induction ss) auto
    then show ?case using Cons by simp
  qed
  then show ?thesis by (simp add: join_stores_def restrict_orders_def)
qed

lemma join_delivery_men_filter:
  "join_delivery_men (restrict_orders P srv) = filter (\<lambda>r. P (fst r)) (join_delivery_men srv)"
proof -
  have "concat (map (\<lambda>ord. concat (map (\<lambda>s. if delivery_man_id ord = dm_id s then [(ord, s)] else []) ss)) (filter P os))
      = filter (\<lambda>r. P (fst r)) (concat (map (\<lambda>ord. concat (map (\<lambda>s. if delivery_man_id ord = dm_id s then [(ord, s)] else []) ss)) os))"
    for os :: "order list" and ss :: "delivery_man list"
  proof (induction os)
    case Nil show ?case by simp
  next
    case (Cons a os)
    have "filter (\<lambda>r. P (fst r)) (concat (map (\<lambda>s. if delivery_man_id a = dm_id s then [(a, s)] else []) ss))
        = (if P a then concat (map (\<lambda>s. if delivery_man_id a = dm_id s then [(a, s)] else []) ss) else [])"
      by (induction ss) auto
    then show ?case using Cons by simp
  qed
  then show ?thesis by (simp add: join_delivery_men_def restrict_orders_def)
qed

lemma final_sql_cong:
  "(\<And>ord. (P ord \<and> where_holds cs ord) = where_holds ds ord) \<Longrightarrow>
   final_sql cs (restrict_orders P srv) = final_sql ds srv"
  by (simp add: final_sql_def restrict_orders_def conj_commute)

lemma restaurant_sql_cong:
  "(\<And>ord. (P ord \<and> where_holds cs ord) = where_holds ds ord) \<Longrightarrow>
   restaurant_sql cs (restrict_orders P srv) = restaurant_sql ds srv"
  by (simp add: restaurant_sql_def restaurant_groups_def join_stores_filter conj_commute)

lemma delivery_sql_cong:
  "(\<And>ord. (P ord \<and> where_holds cs ord) = where_holds ds ord) \<Longrightarrow>
   delivery_sql cs (restrict_orders P srv) = delivery_sql ds srv"
  by (simp add: delivery_sql_def delivery_groups_def join_delivery_men_filter conj_commute)

lemma restrict_flags [simp]:
  "reachable (restrict_orders P srv) = reachable srv"
  "responsive (restrict_orders P srv) = responsive srv"
  by (simp_all add: restrict_orders_def)

lemma policy_matches_clause:
  "(in_range dr (DATE (created_at ord)) \<and> where_holds [Status_is st] ord) =
   where_holds (Status_is st # date_clause (range_start dr) (range_end dr)) ord"
  by (cases dr) (auto simp add: where_holds_def date_clause_def)

lemma date_clause_Empty: "date_clause None None = []"
  by (simp add: date_clause_def)

lemma status_twice:
  "(order_status ord = st \<and> where_holds (Status_is st # cs) ord) = where_holds (Status_is st # cs) ord"
  by (auto simp add: where_holds_def)

subsection \<open>Changing the creation times\<close>

lemma insort_key_map:
  "insort_key f (h x) (map h ys) = map h (insort_key (\<lambda>x. f (h x)) x ys)"
  by (induction ys) simp_all

lemma sort_key_map: "sort_key f (map h xs) = map h (sort_key (\<lambda>x. f (h x)) xs)"
  by (induction xs) (simp_all add: insort_key_map)

lemma order_by_desc_map:
  "order_by_desc f (map h gs) = map h (order_by_desc (\<lambda>x. f (h x)) gs)"
  by (simp add: order_by_desc_def sort_key_map rev_map)

lemma group_by_map:
  assumes "\<And>r. key (h r) = key r"
  shows "group_by key (map h rs) = map (\<lambda>kg. (fst kg, map h (snd kg))) (group_by key rs)"
  by (simp add: group_by_def assms filter_map o_def)

lemma sql_sum_map: "sql_sum f (map h xs) = sql_sum (\<lambda>x. f (h x)) xs"
  by (simp add: sql_sum_def o_def)

lemma sql_count_map: "sql_count (map h xs) = sql_count xs"
  by (simp add: sql_count_def)

lemma join_stores_redate:
  "join_stores (redate g srv) = map (\<lambda>r. ((fst r)\<lparr>created_at := g (fst r)\<rparr>, snd r)) (join_stores srv)"
proof -
  have "concat (map (\<lambda>ord. concat (map (\<lambda>s. if store_id ord = s_id s then [(ord, s)] else []) ss))
          (map (\<lambda>ord. ord\<lparr>created_at := g ord\<rparr>) os))
      = map (\<lambda>r. ((fst r)\<lparr>created_at := g (fst r)\<rparr>, snd r))
          (concat (map (\<lambda>ord. concat (map (\<lambda>s. if store_id ord = s_id s then [(ord, s)] else []) ss)) os))"
    for os :: "order list" and ss :: "store list"
  proof (induction os)
    case Nil show ?case by simp
  next
    case (Cons a os)
    have "concat (map (\<lambda>s. if store_id a = s_id s then [(a\<lparr>created_at := g a\<rparr>, s)] else []) ss)
        = map (\<lambda>r. ((fst r)\<lparr>created_at := g (fst r)\<rparr>, snd r))
            (concat (map (\<lambda>s. if store_id a = s_id s then [(a, s)] else []) ss))"
      by (induction ss) auto
    then show ?case using Cons by simp
  qed
  then show ?thesis by (simp add: join_stores_def redate_def)
qed

lemma join_delivery_men_redate:
  "join_delivery_men (redate g srv) = map (\<lambda>r. ((fst r)\<lparr>created_at := g (fst r)\<rparr>, snd r)) (join_delivery_men srv)"
proof -
  have "concat (map (\<lambda>ord. concat (map (\<lambda>s. if delivery_man_id ord = dm_id s then [(ord, s)] else []) ss))
          (map (\<lambda>ord. ord\<lparr>created_at := g ord\<rparr>) os))
      = map (\<lambda>r. ((fst r)\<lparr>created_at := g (fst r)\<rparr>, snd r))
          (concat (map (\<lambda>ord. concat (map (\<lambda>s. if delivery_man_id ord = dm_id s then [(ord, s)] else []) ss)) os))"
    for os :: "order list" and ss :: "delivery_man list"
  proof (induction os)
    case Nil show ?case by simp
  next
    case (Cons a os)
    have "concat (map (\<lambda>s. if delivery_man_id a = dm_id s then [(a\<lparr>created_at := g a\<rparr>, s)] else []) ss)
        = map (\<lambda>r. ((fst r)\<lparr>created_at := g (fst r)\<rparr>, snd r))
            (concat (map (\<lambda>s. if delivery_man_id a = dm_id s then [(a, s)] else []) ss))"
      by (induction ss) auto
    then show ?case using Cons by simp
  qed
  then show ?thesis by (simp add: join_delivery_men_def redate_def)
qed

lemma net_redate: "net (ord\<lparr>created_at := t\<rparr>) = net ord"
  by (simp add: net_def)

lemma status_only: "where_holds [Status_is st] = (\<lambda>ord. order_status ord = st)"
  by (simp add: where_holds_def fun_eq_iff)

lemma final_sql_redate: "final_sql [Status_is st] (redate g srv) = final_sql [Status_is st] srv"
  by (simp add: final_sql_def redate_def status_only filter_map o_def final_row_def
      sql_sum_map sql_count_map net_redate)

lemma restaurant_sql_redate:
  "restaurant_sql [Status_is st] (redate g srv) = restaurant_sql [Status_is st] srv"
  by (simp add: restaurant_sql_def restaurant_groups_def join_stores_redate status_only filter_map o_def
      group_by_map order_by_desc_map sql_sum_map sql_count_map net_redate restaurant_row_def)

lemma delivery_sql_redate:
  "delivery_sql [Status_is st] (redate g srv) = delivery_sql [Status_is st] srv"
  by (simp add: delivery_sql_def delivery_groups_def join_delivery_men_redate status_only filter_map o_def
      group_by_map order_by_desc_map sql_sum_map sql_count_map net_redate delivery_row_def)

lemma redate_flags [simp]:
  "reachable (redate g srv) = reachable srv"
  "responsive (redate g srv) = responsive srv"
  by (simp_all add: redate_def)

subsection \<open>The frames after rounding\<close>

lemma round_cell_sql_cell: "round_cell (sql_cell v) = sql_cell (map_option round2 v)"
  by (cases v) (simp_all add: sql_cell_def)

lemma final_frame:
  "round_columns [''total_order_amount'', ''total_restaurant_revenue'',
      ''total_delivery_charge'', ''total_additional_charge''] (final_sql conds srv) =
   \<lparr>columns = final_columns,
    rows = [[(''total_orders'', IntV (sql_count (filter (where_holds conds) (orders srv)))),
      (''total_order_amount'', NumV (round2 (coalesce (sql_sum order_amount (filter (where_holds conds) (orders srv))) 0))),
      (''total_restaurant_revenue'', NumV (round2 (coalesce (sql_sum net (filter (where_holds conds) (orders srv))) 0))),
      (''total_delivery_charge'', NumV (round2 (coalesce (sql_sum delivery_charge (filter (where_holds conds) (orders srv))) 0))),
      (''total_additional_charge'', NumV (round2 (coalesce (sql_sum additional_charge (filter (where_holds conds) (orders srv))) 0)))]]\<rparr>"
  by (simp add: final_sql_def final_row_def final_columns_def set_column_def)

lemma restaurant_frame:
  "round_columns [''total_order_amount'', ''total_delivery_fee'',
      ''total_additional_charge'', ''total_revenue''] \<lparr>columns = restaurant_columns, rows = map restaurant_row gs\<rparr> =
   \<lparr>columns = restaurant_columns,
    rows = map (\<lambda>kg.
     [(''restaurant_name'', StrV (snd (fst kg))),
      (''total_orders'', IntV (sql_count (snd kg))),
      (''total_order_amount'', sql_cell (map_option round2 (sql_sum (\<lambda>r. order_amount (fst r)) (snd kg)))),
      (''total_delivery_fee'', sql_cell (map_option round2 (sql_sum (\<lambda>r. delivery_charge (fst r)) (snd kg)))),
      (''total_additional_charge'', sql_cell (map_option round2 (sql_sum (\<lambda>r. additional_charge (fst r)) (snd kg)))),
      (''total_revenue'', sql_cell (map_option round2 (sql_sum (\<lambda>r. net (fst r)) (snd kg))))]) gs\<rparr>"
  by (simp add: restaurant_row_def restaurant_columns_def set_column_def round_cell_sql_cell o_def)

lemma delivery_frame:
  "round_columns [''total_order_amount'', ''total_delivery_fee'']
      \<lparr>columns = delivery_columns, rows = map delivery_row gs\<rparr> =
   \<lparr>columns = delivery_columns,
    rows = map (\<lambda>kg.
     [(''delivery_man_name'', StrV (snd (fst kg))),
      (''total_deliveries'', IntV (sql_count (snd kg))),
      (''total_order_amount'', sql_cell (map_option round2 (sql_sum (\<lambda>r. order_amount (fst r)) (snd kg)))),
      (''total_delivery_fee'', sql_cell (map_option round2 (sql_sum (\<lambda>r. delivery_charge (fst r)) (snd kg))))]) gs\<rparr>"
  by (simp add: delivery_row_def delivery_columns_def set_column_def round_cell_sql_cell o_def)

subsection \<open>Groups and their order\<close>

lemma group_by_nonempty: "kg \<in> set (group_by key rs) \<Longrightarrow> snd kg \<noteq> []"
  by (auto simp add: group_by_def filter_empty_conv)


lemma set_order_by_desc: "set (order_by_desc f gs) = set gs"
  by (simp add: order_by_desc_def)

lemma sorted_order_by_desc: "sorted_wrt (\<lambda>a b. f b \<le> f a) (order_by_desc f gs)"
proof -
  have "sorted (map f (sort_key f gs))" by (rule sorted_sort_key)
  then have "sorted_wrt (\<lambda>a b. f a \<le> f b) (sort_key f gs)"
    by (simp add: sorted_map)
  then show ?thesis
    by (simp add: order_by_desc_def sorted_wrt_rev)
qed

lemma order_by_desc_Nil: "order_by_desc f [] = []"
  by (simp add: order_by_desc_def)

lemma group_by_Nil: "group_by key [] = []"
  by (simp add: group_by_def)

lemma restaurant_groups_nonempty: "kg \<in> set (restaurant_groups conds srv) \<Longrightarrow> snd kg \<noteq> []"
  by (simp add: restaurant_groups_def set_order_by_desc group_by_nonempty)

lemma delivery_groups_nonempty: "kg \<in> set (delivery_groups conds srv) \<Longrightarrow> snd kg \<noteq> []"
  by (simp add: delivery_groups_def set_order_by_desc group_by_nonempty)

lemma restaurant_groups_sorted:
  "sorted_wrt (\<lambda>a b. sql_sum (\<lambda>r. net (fst r)) (snd b) \<le> sql_sum (\<lambda>r. net (fst r)) (snd a))
     (restaurant_groups conds srv)"
  by (simp add: restaurant_groups_def sorted_order_by_desc)

lemma delivery_groups_sorted:
  "sorted_wrt (\<lambda>a b. sql_sum (\<lambda>r. order_amount (fst r)) (snd b) \<le> sql_sum (\<lambda>r. order_amount (fst r)) (snd a))
     (delivery_groups conds srv)"
  by (simp add: delivery_groups_def sorted_order_by_desc)

lemma sql_sum_le: "xs \<noteq> [] \<Longrightarrow> ys \<noteq> [] \<Longrightarrow>
   sql_sum f xs \<le> sql_sum g ys \<longleftrightarrow> sum_list (map f xs) \<le> sum_list (map g ys)"
  by (simp add: sql_sum_def)

lemma descending_column:
  assumes sorted: "sorted_wrt (\<lambda>a b. sql_sum f (snd b) \<le> sql_sum f (snd a)) gs"
    and nonempty: "\<And>kg. kg \<in> set gs \<Longrightarrow> snd kg \<noteq> []"
    and cell: "\<And>kg. kg \<in> set gs \<Longrightarrow> map_of (mk kg) col = Some (sql_cell (map_option round2 (sql_sum f (snd kg))))"
  shows "\<exists>xs. map (\<lambda>r. num_at r col) (map mk gs) = map Some xs \<and> sorted_wrt (\<lambda>a b. b \<le> a) xs"
proof -
  let ?v = "\<lambda>kg. round2 (sum_list (map f (snd kg)))"
  have num: "num_at (mk kg) col = Some (?v kg)" if "kg \<in> set gs" for kg
    using cell[OF that] nonempty[OF that] by (simp add: num_at_def sql_sum_def sql_cell_def)
  have "map (\<lambda>r. num_at r col) (map mk gs) = map Some (map ?v gs)"
    using num by simp
  moreover have "sorted_wrt (\<lambda>a b. b \<le> a) (map ?v gs)"
  proof -
    have "sorted_wrt (\<lambda>a b. ?v b \<le> ?v a) gs"
    proof (rule sorted_wrt_mono_rel[OF _ sorted])
      fix a b assume a: "a \<in> set gs" and b: "b \<in> set gs"
        and le: "sql_sum f (snd b) \<le> sql_sum f (snd a)"
      from le nonempty[OF a] nonempty[OF b]
      have "sum_list (map f (snd b)) \<le> sum_list (map f (snd a))"
        by (simp add: sql_sum_def)
      then show "?v b \<le> ?v a" by (rule round2_mono)
    qed
    then show ?thesis by (simp add: sorted_wrt_map)
  qed
  ultimately show ?thesis by blast
qed

subsection \<open>No matching orders\<close>

lemma round2_0: "round2 0 = 0"
  by (simp add: round2_def rint_def)

lemma final_frame_no_match:
  assumes "filter (where_holds conds) (orders srv) = []"
  shows "round_columns [''total_order_amount'', ''total_restaurant_revenue'',
      ''total_delivery_charge'', ''total_additional_charge''] (final_sql conds srv) = zero_totals"
  unfolding final_frame assms
  by (simp add: zero_totals_def sql_count_def sql_sum_def coalesce_def round2_0)

lemma join_stores_members: "r \<in> set (join_stores srv) \<Longrightarrow> fst r \<in> set (orders srv)"
  by (auto simp add: join_stores_def)

lemma join_delivery_men_members: "r \<in> set (join_delivery_men srv) \<Longrightarrow> fst r \<in> set (orders srv)"
  by (auto simp add: join_delivery_men_def)

lemma restaurant_groups_no_match:
  assumes "filter (where_holds conds) (orders srv) = []"
  shows "restaurant_groups conds srv = []"
proof -
  have "filter (\<lambda>r. where_holds conds (fst r)) (join_stores srv) = []"
    using assms join_stores_members[of _ srv] by (auto simp add: filter_empty_conv)
  then show ?thesis
    by (simp add: restaurant_groups_def group_by_Nil order_by_desc_Nil)
qed

lemma delivery_groups_no_match:
  assumes "filter (where_holds conds) (orders srv) = []"
  shows "delivery_groups conds srv = []"
proof -
  have "filter (\<lambda>r. where_holds conds (fst r)) (join_delivery_men srv) = []"
    using assms join_delivery_men_members[of _ srv] by (auto simp add: filter_empty_conv)
  then show ?thesis
    by (simp add: delivery_groups_def group_by_Nil order_by_desc_Nil)
qed

lemma no_match_results:
  assumes up: "reachable srv" "responsive srv"
    and none: "filter (where_holds (Status_is ''delivered'' # date_clause s e)) (orders srv) = []"
  shows "fst (get_final_stats srv s e ss) = Inr zero_totals \<and>
         fst (get_restaurant_stats srv s e ss) = Inr \<lparr>columns = restaurant_columns, rows = []\<rparr> \<and>
         fst (get_delivery_stats srv s e ss) = Inr \<lparr>columns = delivery_columns, rows = []\<rparr>"
  using up
  by (simp add: get_final_stats_eq get_restaurant_stats_eq get_delivery_stats_eq
      final_frame_no_match[OF none] restaurant_sql_def delivery_sql_def
      restaurant_groups_no_match[OF none] delivery_groups_no_match[OF none]
      round_columns_no_rows del: round_columns.simps)

lemma date_le_trans: "date_le a b \<Longrightarrow> date_le b c \<Longrightarrow> date_le a c"
  by (auto simp add: date_le_def)

lemma inverted_range_matches_nothing:
  assumes "date_less b a"
  shows "filter (where_holds (Status_is st # date_clause (Some a) (Some b))) os = []"
proof -
  have "\<not> (date_le a d \<and> date_le d b)" for d
    using assms date_le_trans[of a d b] by (auto simp add: date_less_def)
  then show ?thesis
    by (simp add: filter_empty_conv where_holds_def date_clause_def)
qed

lemma no_delivered_no_match:
  assumes "\<forall>ord \<in> set (orders srv). order_status ord \<noteq> ''delivered''"
  shows "filter (where_holds (Status_is ''delivered'' # date_clause s e)) (orders srv) = []"
  using assms by (auto simp add: filter_empty_conv where_holds_def)

subsection \<open>Rounded and untouched cells\<close>


lemma cell_at_rounded:
  "cell_at (map (round_in cs cols) r) col =
     map_option (\<lambda>v. if col \<in> set cs \<and> col \<in> set cols then round_cell v else v) (cell_at r col)"
  by (simp add: cell_at_def map_of_round_in)

lemma untouched_columns:
  assumes "col \<notin> set cs"
  shows "map (\<lambda>r. cell_at r col) (rows (round_columns cs df)) = map (\<lambda>r. cell_at r col) (rows df)"
  using assms by (simp add: rows_round_columns cell_at_rounded o_def option.map_ident)

lemma columns_final_sql: "columns (final_sql conds srv) = final_columns"
  by (simp add: final_sql_def)

lemma columns_restaurant_sql: "columns (restaurant_sql conds srv) = restaurant_columns"
  by (simp add: restaurant_sql_def)

lemma columns_delivery_sql: "columns (delivery_sql conds srv) = delivery_columns"
  by (simp add: delivery_sql_def)

subsection \<open>Net revenue\<close>





lemma whole_cents_iff: "whole_cents x \<longleftrightarrow> (\<exists>n. x * 100 = of_int n)"
  by (simp add: whole_cents_def)












subsection \<open>Cells rounded to whole cents\<close>

lemma whole_cents_of_round2: "whole_cents (round2 y)"
  unfolding whole_cents_iff by (rule exI[of _ "rint (y * 100)"]) (simp add: round2_def)

text \<open>A rounded numeric cell, against the cell it was rounded from.\<close>

lemma rounded_cell:
  assumes "cell_at r col = Some (NumV y)" and "col \<in> set cs" and "col \<in> set cols"
  shows "\<exists>x. cell_at (map (round_in cs cols) r) col = Some (NumV x) \<and>
             whole_cents x \<and> \<bar>x - y\<bar> \<le> 1 / 200 \<and> round2 x = x"
proof -
  from assms have "cell_at (map (round_in cs cols) r) col = Some (NumV (round2 y))"
    by (simp add: cell_at_rounded)
  moreover have "whole_cents (round2 y)" by (rule whole_cents_of_round2)
  moreover have "\<bar>round2 y - y\<bar> \<le> 1 / 200" by (rule round2_err)
  moreover have "round2 (round2 y) = round2 y" by (rule round2_idem)
  ultimately show ?thesis by blast
qed

lemma nth_rows_round_columns:
  assumes "i < length (rows df)"
  shows "rows (round_columns cs df) ! i = map (round_in cs (columns df)) (rows df ! i)"
  using assms by (simp add: rows_round_columns)

lemma length_rows_round_columns: "length (rows (round_columns cs df)) = length (rows df)"
  by (simp add: rows_round_columns)

lemma final_numeric:
  assumes "i < length (rows (final_sql conds srv))"
    and "col \<in> set [''total_order_amount'', ''total_restaurant_revenue'',
                      ''total_delivery_charge'', ''total_additional_charge'']"
  shows "\<exists>y. cell_at (rows (final_sql conds srv) ! i) col = Some (NumV y)"
  using assms by (auto simp add: final_sql_def final_row_def cell_at_def)

lemma restaurant_numeric:
  assumes "i < length (rows (restaurant_sql conds srv))"
    and "col \<in> set [''total_order_amount'', ''total_delivery_fee'',
                      ''total_additional_charge'', ''total_revenue'']"
  shows "\<exists>y. cell_at (rows (restaurant_sql conds srv) ! i) col = Some (NumV y)"
proof -
  from assms(1) have "restaurant_groups conds srv ! i \<in> set (restaurant_groups conds srv)"
    by (simp add: restaurant_sql_def)
  then have "snd (restaurant_groups conds srv ! i) \<noteq> []"
    by (rule restaurant_groups_nonempty)
  with assms show ?thesis
    by (auto simp add: restaurant_sql_def restaurant_row_def cell_at_def sql_cell_def sql_sum_def)
qed

lemma delivery_numeric:
  assumes "i < length (rows (delivery_sql conds srv))"
    and "col \<in> set [''total_order_amount'', ''total_delivery_fee'']"
  shows "\<exists>y. cell_at (rows (delivery_sql conds srv) ! i) col = Some (NumV y)"
proof -
  from assms(1) have "delivery_groups conds srv ! i \<in> set (delivery_groups conds srv)"
    by (simp add: delivery_sql_def)
  then have "snd (delivery_groups conds srv ! i) \<noteq> []"
    by (rule delivery_groups_nonempty)
  with assms show ?thesis
    by (auto simp add: delivery_sql_def delivery_row_def cell_at_def sql_cell_def sql_sum_def)
qed

text \<open>The loop on a frame whose listed columns are numeric.\<close>

lemma round_columns_rounds:
  assumes numeric: "\<And>i col. i < length (rows raw) \<Longrightarrow> col \<in> set cs \<Longrightarrow>
                      \<exists>y. cell_at (rows raw ! i) col = Some (NumV y)"
    and listed: "\<And>col. col \<in> set monetary \<Longrightarrow> col \<in> set (columns raw) \<Longrightarrow> col \<in> set cs"
    and within: "set cs \<subseteq> set monetary"
  shows "length (rows (round_columns cs raw)) = length (rows raw) \<and>
         (\<forall>i < length (rows (round_columns cs raw)). \<forall>col \<in> set monetary.
            col \<in> set (columns (round_columns cs raw)) \<longrightarrow>
            (\<exists>x y. cell_at (rows (round_columns cs raw) ! i) col = Some (NumV x) \<and>
                   cell_at (rows raw ! i) col = Some (NumV y) \<and>
                   whole_cents x \<and> \<bar>x - y\<bar> \<le> 1 / 200 \<and> round2 x = x)) \<and>
         (\<forall>col. col \<notin> set monetary \<longrightarrow>
            map (\<lambda>r. cell_at r col) (rows (round_columns cs raw)) =
            map (\<lambda>r. cell_at r col) (rows raw)) \<and>
         columns (round_columns cs raw) = columns raw"
proof (intro conjI allI impI ballI)
  show "length (rows (round_columns cs raw)) = length (rows raw)"
    by (rule length_rows_round_columns)
  show "columns (round_columns cs raw) = columns raw"
    by (rule columns_round_columns)
next
  fix col assume "col \<notin> set monetary"
  with within have "col \<notin> set cs" by blast
  then show "map (\<lambda>r. cell_at r col) (rows (round_columns cs raw)) =
            map (\<lambda>r. cell_at r col) (rows raw)"
    by (rule untouched_columns)
next
  fix i col
  assume i: "i < length (rows (round_columns cs raw))" and m: "col \<in> set monetary"
    and c: "col \<in> set (columns (round_columns cs raw))"
  from i have i': "i < length (rows raw)" by (simp add: length_rows_round_columns)
  from c have c': "col \<in> set (columns raw)" by (simp add: columns_round_columns)
  from listed[OF m c'] have cs: "col \<in> set cs" .
  from numeric[OF i' cs] obtain y where y: "cell_at (rows raw ! i) col = Some (NumV y)" ..
  from rounded_cell[OF y cs c'] obtain x where
    "cell_at (map (round_in cs (columns raw)) (rows raw ! i)) col = Some (NumV x)"
    "whole_cents x" "\<bar>x - y\<bar> \<le> 1 / 200" "round2 x = x" by blast
  with y i' show "\<exists>x y. cell_at (rows (round_columns cs raw) ! i) col = Some (NumV x) \<and>
                   cell_at (rows raw ! i) col = Some (NumV y) \<and>
                   whole_cents x \<and> \<bar>x - y\<bar> \<le> 1 / 200 \<and> round2 x = x"
    by (simp add: nth_rows_round_columns)
qed

subsection \<open>Writing and reading a sheet\<close>

lemma same_value_read_back: "same_value (cell_in (cell_out c)) c"
  by (cases c) (simp_all add: same_value_def number_of_def)

lemma lookup_all_keys:
  "distinct (map fst r) \<Longrightarrow>
   map (\<lambda>k. case map_of r k of None \<Rightarrow> d | Some c \<Rightarrow> f c) (map fst r) = map (\<lambda>kv. f (snd kv)) r"
proof (induction r)
  case Nil
  show ?case by simp
next
  case (Cons a r)
  obtain k v where a: "a = (k, v)" by (cases a)
  from Cons.prems have nk: "k \<notin> fst ` set r" and dr: "distinct (map fst r)"
    by (simp_all add: a)
  have "map (\<lambda>k'. case map_of (a # r) k' of None \<Rightarrow> d | Some c \<Rightarrow> f c) (map fst r) =
        map (\<lambda>k'. case map_of r k' of None \<Rightarrow> d | Some c \<Rightarrow> f c) (map fst r)"
  proof (rule map_cong[OF refl])
    fix k' assume "k' \<in> set (map fst r)"
    with nk have "k' \<noteq> k" by auto
    then show "(case map_of (a # r) k' of None \<Rightarrow> d | Some c \<Rightarrow> f c) =
               (case map_of r k' of None \<Rightarrow> d | Some c \<Rightarrow> f c)"
      by (simp add: a)
  qed
  with Cons.IH[OF dr] show ?case by (simp add: a)
qed

lemma map_enumerate_snd: "map (\<lambda>ir. f (snd ir)) (enumerate n xs) = map f xs"
  by (induction xs arbitrary: n) simp_all

lemma header_names_Text: "header_names (map Text cols) = cols"
proof -
  have "map (\<lambda>ic. case snd ic of Text s \<Rightarrow> s | _ \<Rightarrow> ''Unnamed: '' @ decimal (fst ic))
          (enumerate n (map Text cols)) = cols" for n
    by (induction cols arbitrary: n) simp_all
  then show ?thesis by (simp add: header_names_def)
qed

lemma sheet_of_frame:
  assumes "well_formed df"
  shows "sheets (export_to_excel df_to_excel df) =
           [map Text (columns df) # map (\<lambda>r. map (\<lambda>kv. cell_out (snd kv)) r) (rows df)]"
proof -
  have row: "map (\<lambda>col. case map_of r col of None \<Rightarrow> Blank | Some c \<Rightarrow> cell_out c) (columns df) =
             map (\<lambda>kv. cell_out (snd kv)) r" if "r \<in> set (rows df)" for r
  proof -
    from assms that have keys: "map fst r = columns df" and "distinct (columns df)"
      by (simp_all add: well_formed_def list_all_iff)
    then have "distinct (map fst r)" by simp
    from lookup_all_keys[OF this, of Blank cell_out] keys show ?thesis by simp
  qed
  have "map (\<lambda>ir. map (\<lambda>col. case map_of (snd ir) col of None \<Rightarrow> Blank | Some c \<Rightarrow> cell_out c)
                     (columns df)) (enumerate 0 (rows df)) =
        map (\<lambda>r. map (\<lambda>col. case map_of r col of None \<Rightarrow> Blank | Some c \<Rightarrow> cell_out c) (columns df))
          (rows df)"
    by (rule map_enumerate_snd)
  also have "\<dots> = map (\<lambda>r. map (\<lambda>kv. cell_out (snd kv)) r) (rows df)"
    using row by (simp add: map_eq_conv)
  finally show ?thesis
    by (simp add: export_to_excel_def df_to_excel_def)
qed

lemma read_back_frame:
  assumes "well_formed df"
  shows "read_excel (export_to_excel df_to_excel df) =
           Some \<lparr>columns = columns df,
                 rows = map (\<lambda>r. map (\<lambda>kv. (fst kv, cell_in (cell_out (snd kv)))) r) (rows df)\<rparr>"
proof -
  have "zip (columns df) (map cell_in (map (\<lambda>kv. cell_out (snd kv)) r)) =
        map (\<lambda>kv. (fst kv, cell_in (cell_out (snd kv)))) r" if "r \<in> set (rows df)" for r
  proof -
    from assms that have "columns df = map fst r"
      by (simp add: well_formed_def list_all_iff)
    then show ?thesis by (simp add: zip_map_map zip_same_conv_map)
  qed
  then show ?thesis
    by (simp add: read_excel_def sheet_of_frame[OF assms] header_names_Text map_eq_conv)
qed

lemma cell_at_read_back:
  "cell_at (map (\<lambda>kv. (fst kv, cell_in (cell_out (snd kv)))) r) col =
     map_option (\<lambda>c. cell_in (cell_out c)) (cell_at r col)"
  by (induction r) (auto simp add: cell_at_def)

lemma well_formed_cell:
  assumes "well_formed df" and "i < length (rows df)" and "col \<in> set (columns df)"
  shows "\<exists>b. cell_at (rows df ! i) col = Some b"
proof -
  from assms(1,2) have "map fst (rows df ! i) = columns df"
    by (simp add: well_formed_def list_all_length)
  with assms(3) have "col \<in> fst ` set (rows df ! i)" by (metis set_map)
  then show ?thesis
    by (metis cell_at_def domD dom_map_of_conv_image_fst)
qed

lemma well_formed_round_columns:
  assumes "well_formed raw"
  shows "well_formed (round_columns cs raw)"
proof -
  have "fst \<circ> round_in cs cols = fst" for cols
    by (rule ext) (simp add: round_in_def split: prod.splits)
  with assms show ?thesis
    by (simp add: well_formed_def list_all_iff rows_round_columns columns_round_columns)
qed

lemma well_formed_final_sql: "well_formed (final_sql conds srv)"
  by (simp add: well_formed_def final_sql_def final_row_def final_columns_def)

lemma well_formed_restaurant_sql: "well_formed (restaurant_sql conds srv)"
  by (simp add: well_formed_def restaurant_sql_def restaurant_row_def restaurant_columns_def
      list_all_iff)

lemma well_formed_delivery_sql: "well_formed (delivery_sql conds srv)"
  by (simp add: well_formed_def delivery_sql_def delivery_row_def delivery_columns_def
      list_all_iff)

lemma aggregate_well_formed:
  assumes "fst (aggregate k srv s e ss) = Inr df"
  shows "well_formed df"
proof (cases k)
  case Overall
  with assms have "df = round_columns [''total_order_amount'', ''total_restaurant_revenue'',
      ''total_delivery_charge'', ''total_additional_charge'']
      (final_sql (Status_is ''delivered'' # date_clause s e) srv)"
    by (simp add: get_final_stats_eq split: if_splits del: round_columns.simps)
  then show ?thesis by (simp only: well_formed_round_columns[OF well_formed_final_sql])
next
  case Per_restaurant
  with assms have "df = round_columns [''total_order_amount'', ''total_delivery_fee'',
      ''total_additional_charge'', ''total_revenue'']
      (restaurant_sql (Status_is ''delivered'' # date_clause s e) srv)"
    by (simp add: get_restaurant_stats_eq split: if_splits del: round_columns.simps)
  then show ?thesis by (simp only: well_formed_round_columns[OF well_formed_restaurant_sql])
next
  case Per_courier
  with assms have "df = round_columns [''total_order_amount'', ''total_delivery_fee'']
      (delivery_sql (Status_is ''delivered'' # date_clause s e) srv)"
    by (simp add: get_delivery_stats_eq split: if_splits del: round_columns.simps)
  then show ?thesis by (simp only: well_formed_round_columns[OF well_formed_delivery_sql])
qed

subsection \<open>Evaluation on the sample data\<close>

lemma floor_rat_numeral: "\<lfloor>(numeral a :: rat) / numeral b\<rfloor> = numeral a div numeral b"
  using floor_divide_of_int_eq[of "numeral a" "numeral b", where ?'a = rat] by simp

lemmas eval_defs = demo_server_def fresh_session_def jan_def
  get_final_stats_eq get_restaurant_stats_eq get_delivery_stats_eq
  final_sql_def restaurant_sql_def delivery_sql_def
  final_row_def restaurant_row_def delivery_row_def set_column_def
  restaurant_groups_def delivery_groups_def join_stores_def join_delivery_men_def
  group_by_def order_by_desc_def where_holds_def date_clause_def DATE_def date_le_def
  sql_sum_def sql_count_def sql_cell_def coalesce_def net_def round2_def rint_def
  restaurant_columns_def delivery_columns_def final_columns_def floor_rat_numeral

subsection \<open>The download buttons of the page\<close>








section \<open>Properties\<close>

subsection \<open>The date filter\<close>

text \<open>
  C1. For each of the three aggregation queries and each date range of the specification
  (a start and an end, a single day, or empty), the call returns what the call without
  dates returns on the database cut down to the orders whose creation date lies in the
  range: between start and end, both included; equal to the single day; every order for
  the empty range. The call without dates does not depend on the creation dates at all:
  replacing the creation time of every order leaves its result unchanged.
\<close>

theorem date_filter_policy:
  "aggregate k srv (range_start dr) (range_end dr) ss =
     aggregate k (restrict_orders (\<lambda>ord. in_range dr (DATE (created_at ord))) srv) None None ss \<and>
   aggregate k (redate g srv) None None ss = aggregate k srv None None ss"
  by (cases k)
    (simp_all add: get_final_stats_eq get_restaurant_stats_eq get_delivery_stats_eq date_clause_Empty
      final_sql_cong[OF policy_matches_clause] restaurant_sql_cong[OF policy_matches_clause]
      delivery_sql_cong[OF policy_matches_clause]
      final_sql_redate restaurant_sql_redate delivery_sql_redate del: round_columns.simps)

subsection \<open>A selection without orders\<close>

text \<open>
  C2. When the server accepts the connection and executes the statement, and no order
  passes the WHERE clause of the date range (in particular when the start date is after the
  end date), the overall query returns one row with the count and the four sums equal
  to 0, the per-restaurant and the per-courier queries return no rows, and none of the three
  calls ends in an error.
\<close>

theorem no_matching_orders:
  assumes "reachable srv" and "responsive srv"
    and "(\<forall>ord \<in> set (orders srv). \<not> where_holds (Status_is ''delivered'' # date_clause s e) ord) \<or>
         (\<exists>a b. s = Some a \<and> e = Some b \<and> date_less b a)"
  shows "fst (get_final_stats srv s e ss) = Inr zero_totals \<and>
         fst (get_restaurant_stats srv s e ss) = Inr \<lparr>columns = restaurant_columns, rows = []\<rparr> \<and>
         fst (get_delivery_stats srv s e ss) = Inr \<lparr>columns = delivery_columns, rows = []\<rparr>"
proof -
  have "filter (where_holds (Status_is ''delivered'' # date_clause s e)) (orders srv) = []"
    using assms(3) inverted_range_matches_nothing by (auto simp add: filter_empty_conv)
  then show ?thesis using assms(1,2) by (rule no_match_results[rotated 2])
qed

theorem no_matching_orders_witness:
  "fst (get_final_stats demo_server (Some \<lparr>year = 2024, month = 2, day = 1\<rparr>)
         (Some \<lparr>year = 2024, month = 1, day = 1\<rparr>) fresh_session) = Inr zero_totals \<and>
   fst (get_restaurant_stats demo_server (Some \<lparr>year = 2024, month = 2, day = 1\<rparr>)
         (Some \<lparr>year = 2024, month = 1, day = 1\<rparr>) fresh_session) =
     Inr \<lparr>columns = restaurant_columns, rows = []\<rparr> \<and>
   fst (get_delivery_stats demo_server (Some \<lparr>year = 2024, month = 2, day = 1\<rparr>)
         (Some \<lparr>year = 2024, month = 1, day = 1\<rparr>) fresh_session) =
     Inr \<lparr>columns = delivery_columns, rows = []\<rparr>"
  using no_matching_orders[of demo_server "Some \<lparr>year = 2024, month = 2, day = 1\<rparr>"
      "Some \<lparr>year = 2024, month = 1, day = 1\<rparr>" fresh_session]
  by (simp add: demo_server_def date_less_def date_le_def)

subsection \<open>Rounding of the monetary columns\<close>

text \<open>
  C3. The frame returned by any of the three aggregation queries has the rows and the
  columns of the statement's result, and row for row: every cell of a monetary column that
  the frame has is a number of whole cents, at most half a cent away from the statement's
  cell of the same row and column, and rounding it to two decimal places once more leaves
  it unchanged; every other column holds the cells of the statement's result.
\<close>

theorem monetary_columns_rounded:
  assumes "fst (aggregate k srv s e ss) = Inr df"
  shows "length (rows df) =
           length (rows (run_query srv (statement k (Status_is ''delivered'' # date_clause s e)))) \<and>
         (\<forall>i < length (rows df). \<forall>col \<in> set monetary. col \<in> set (columns df) \<longrightarrow>
            (\<exists>x y. cell_at (rows df ! i) col = Some (NumV x) \<and>
                   cell_at (rows (run_query srv (statement k (Status_is ''delivered'' # date_clause s e))) ! i)
                     col = Some (NumV y) \<and>
                   whole_cents x \<and> \<bar>x - y\<bar> \<le> 1 / 200 \<and> round2 x = x)) \<and>
         (\<forall>col. col \<notin> set monetary \<longrightarrow>
            map (\<lambda>r. cell_at r col) (rows df) =
            map (\<lambda>r. cell_at r col)
              (rows (run_query srv (statement k (Status_is ''delivered'' # date_clause s e))))) \<and>
         columns df = columns (run_query srv (statement k (Status_is ''delivered'' # date_clause s e)))"
proof (cases k)
  case Overall
  with assms have df: "df = round_columns [''total_order_amount'', ''total_restaurant_revenue'',
      ''total_delivery_charge'', ''total_additional_charge'']
      (final_sql (Status_is ''delivered'' # date_clause s e) srv)"
    by (simp add: get_final_stats_eq split: if_splits del: round_columns.simps)
  show ?thesis
    unfolding df Overall statement.simps run_query.simps
  proof (rule round_columns_rounds)
    show "\<And>i col. i < length (rows (final_sql (Status_is ''delivered'' # date_clause s e) srv)) \<Longrightarrow>
       col \<in> set [''total_order_amount'', ''total_restaurant_revenue'',
                  ''total_delivery_charge'', ''total_additional_charge''] \<Longrightarrow>
       \<exists>y. cell_at (rows (final_sql (Status_is ''delivered'' # date_clause s e) srv) ! i) col = Some (NumV y)"
      by (rule final_numeric)
  qed (auto simp add: monetary_def columns_final_sql final_columns_def)
next
  case Per_restaurant
  with assms have df: "df = round_columns [''total_order_amount'', ''total_delivery_fee'',
      ''total_additional_charge'', ''total_revenue'']
      (restaurant_sql (Status_is ''delivered'' # date_clause s e) srv)"
    by (simp add: get_restaurant_stats_eq split: if_splits del: round_columns.simps)
  show ?thesis
    unfolding df Per_restaurant statement.simps run_query.simps
  proof (rule round_columns_rounds)
    show "\<And>i col. i < length (rows (restaurant_sql (Status_is ''delivered'' # date_clause s e) srv)) \<Longrightarrow>
       col \<in> set [''total_order_amount'', ''total_delivery_fee'',
                  ''total_additional_charge'', ''total_revenue''] \<Longrightarrow>
       \<exists>y. cell_at (rows (restaurant_sql (Status_is ''delivered'' # date_clause s e) srv) ! i) col = Some (NumV y)"
      by (rule restaurant_numeric)
  qed (auto simp add: monetary_def columns_restaurant_sql restaurant_columns_def)
next
  case Per_courier
  with assms have df: "df = round_columns [''total_order_amount'', ''total_delivery_fee'']
      (delivery_sql (Status_is ''delivered'' # date_clause s e) srv)"
    by (simp add: get_delivery_stats_eq split: if_splits del: round_columns.simps)
  show ?thesis
    unfolding df Per_courier statement.simps run_query.simps
  proof (rule round_columns_rounds)
    show "\<And>i col. i < length (rows (delivery_sql (Status_is ''delivered'' # date_clause s e) srv)) \<Longrightarrow>
       col \<in> set [''total_order_amount'', ''total_delivery_fee''] \<Longrightarrow>
       \<exists>y. cell_at (rows (delivery_sql (Status_is ''delivered'' # date_clause s e) srv) ! i) col = Some (NumV y)"
      by (rule delivery_numeric)
  qed (auto simp add: monetary_def columns_delivery_sql delivery_columns_def)
qed

theorem monetary_columns_rounded_witness:
  "(\<exists>x y. cell_at (result_rows (aggregate Per_restaurant demo_server None None fresh_session) ! 1)
             ''total_order_amount'' = Some (NumV x) \<and>
          cell_at (rows (run_query demo_server (statement Per_restaurant [Status_is ''delivered''])) ! 1)
             ''total_order_amount'' = Some (NumV y) \<and>
          whole_cents x \<and> \<bar>x - y\<bar> \<le> 1 / 200 \<and> round2 x = x) \<and>
   map (\<lambda>r. cell_at r ''restaurant_name'')
     (result_rows (aggregate Per_restaurant demo_server None None fresh_session)) =
   map (\<lambda>r. cell_at r ''restaurant_name'')
     (rows (run_query demo_server (statement Per_restaurant [Status_is ''delivered''])))"
proof -
  let ?raw = "run_query demo_server (statement Per_restaurant (Status_is ''delivered'' # date_clause None None))"
  have h: "fst (aggregate Per_restaurant demo_server None None fresh_session) = Inr demo_frame"
    by (simp add: eval_defs demo_frame_def Let_def)
  have rr: "result_rows (aggregate Per_restaurant demo_server None None fresh_session) = rows demo_frame"
    unfolding result_rows_def h by simp
  have raw: "?raw = run_query demo_server (statement Per_restaurant [Status_is ''delivered''])"
    by (simp add: date_clause_def)
  note c = monetary_columns_rounded[OF h]
  from c have "\<forall>i < length (rows demo_frame). \<forall>col \<in> set monetary. col \<in> set (columns demo_frame) \<longrightarrow>
            (\<exists>x y. cell_at (rows demo_frame ! i) col = Some (NumV x) \<and>
                   cell_at (rows ?raw ! i) col = Some (NumV y) \<and>
                   whole_cents x \<and> \<bar>x - y\<bar> \<le> 1 / 200 \<and> round2 x = x)"
    by blast
  moreover have "(1::nat) < length (rows demo_frame)" "''total_order_amount'' \<in> set monetary"
    "''total_order_amount'' \<in> set (columns demo_frame)"
    by (simp_all add: demo_frame_def monetary_def restaurant_columns_def)
  ultimately have 1: "\<exists>x y. cell_at (rows demo_frame ! 1) ''total_order_amount'' = Some (NumV x) \<and>
                   cell_at (rows ?raw ! 1) ''total_order_amount'' = Some (NumV y) \<and>
                   whole_cents x \<and> \<bar>x - y\<bar> \<le> 1 / 200 \<and> round2 x = x"
    by blast
  from c have "\<forall>col. col \<notin> set monetary \<longrightarrow>
            map (\<lambda>r. cell_at r col) (rows demo_frame) = map (\<lambda>r. cell_at r col) (rows ?raw)"
    by blast
  moreover have "''restaurant_name'' \<notin> set monetary" by (simp add: monetary_def)
  ultimately have 2: "map (\<lambda>r. cell_at r ''restaurant_name'') (rows demo_frame) =
     map (\<lambda>r. cell_at r ''restaurant_name'') (rows ?raw)"
    by blast
  from 1 2 show ?thesis unfolding rr raw by blast
qed

subsection \<open>Net revenue after rounding\<close>




subsection \<open>Order of the rows\<close>

text \<open>
  C5. The rows of the per-restaurant result are non-increasing in \<open>total_revenue\<close>, and the
  rows of the per-courier result are non-increasing in \<open>total_order_amount\<close>; both columns
  hold numbers in every row. The statement orders the sums before they are rounded;
  rounding is monotone and keeps the order.
\<close>

theorem results_descending:
  "(fst (get_restaurant_stats srv s e ss) = Inr df \<longrightarrow>
      (\<exists>xs. map (\<lambda>r. num_at r ''total_revenue'') (rows df) = map Some xs \<and>
            sorted_wrt (\<lambda>a b. b \<le> a) xs)) \<and>
   (fst (get_delivery_stats srv s e ss) = Inr df \<longrightarrow>
      (\<exists>xs. map (\<lambda>r. num_at r ''total_order_amount'') (rows df) = map Some xs \<and>
            sorted_wrt (\<lambda>a b. b \<le> a) xs))"
proof (intro conjI impI)
  assume "fst (get_restaurant_stats srv s e ss) = Inr df"
  then have df: "df = round_columns [''total_order_amount'', ''total_delivery_fee'',
      ''total_additional_charge'', ''total_revenue'']
      (restaurant_sql (Status_is ''delivered'' # date_clause s e) srv)"
    by (simp add: get_restaurant_stats_eq split: if_splits del: round_columns.simps)
  show "\<exists>xs. map (\<lambda>r. num_at r ''total_revenue'') (rows df) = map Some xs \<and>
            sorted_wrt (\<lambda>a b. b \<le> a) xs"
    unfolding df restaurant_sql_def restaurant_frame dataframe.simps
    by (rule descending_column[OF restaurant_groups_sorted restaurant_groups_nonempty]) simp_all
next
  assume "fst (get_delivery_stats srv s e ss) = Inr df"
  then have df: "df = round_columns [''total_order_amount'', ''total_delivery_fee'']
      (delivery_sql (Status_is ''delivered'' # date_clause s e) srv)"
    by (simp add: get_delivery_stats_eq split: if_splits del: round_columns.simps)
  show "\<exists>xs. map (\<lambda>r. num_at r ''total_order_amount'') (rows df) = map Some xs \<and>
            sorted_wrt (\<lambda>a b. b \<le> a) xs"
    unfolding df delivery_sql_def delivery_frame dataframe.simps
    by (rule descending_column[OF delivery_groups_sorted delivery_groups_nonempty]) simp_all
qed

theorem results_descending_witness:
  "(\<exists>xs. map (\<lambda>r. num_at r ''total_revenue'')
           (result_rows (get_restaurant_stats demo_server None None fresh_session)) = map Some xs \<and>
         sorted_wrt (\<lambda>a b. b \<le> a) xs) \<and>
   (\<exists>xs. map (\<lambda>r. num_at r ''total_order_amount'')
           (result_rows (get_delivery_stats demo_server None None fresh_session)) = map Some xs \<and>
         sorted_wrt (\<lambda>a b. b \<le> a) xs)"
proof -
  obtain dfr where r: "fst (get_restaurant_stats demo_server None None fresh_session) = Inr dfr"
    by (simp add: get_restaurant_stats_eq demo_server_def del: round_columns.simps)
  obtain dfd where d: "fst (get_delivery_stats demo_server None None fresh_session) = Inr dfd"
    by (simp add: get_delivery_stats_eq demo_server_def del: round_columns.simps)
  from results_descending[of demo_server None None fresh_session dfr] r
    results_descending[of demo_server None None fresh_session dfd] d
  show ?thesis by (simp add: result_rows_def)
qed

subsection \<open>Delivered orders only\<close>

text \<open>
  C6. For each of the three aggregation queries, removing every order whose status is not
  \<open>delivered\<close> from the orders table leaves the result unchanged. When the table holds no
  delivered order, the overall query returns the count 0 and the four sums 0.
\<close>

theorem only_delivered_orders_count:
  "aggregate k (restrict_orders (\<lambda>ord. order_status ord = ''delivered'') srv) s e ss =
     aggregate k srv s e ss \<and>
   (reachable srv \<and> responsive srv \<and> (\<forall>ord \<in> set (orders srv). order_status ord \<noteq> ''delivered'') \<longrightarrow>
      fst (get_final_stats srv s e ss) = Inr zero_totals)"
proof (intro conjI impI)
  show "aggregate k (restrict_orders (\<lambda>ord. order_status ord = ''delivered'') srv) s e ss =
     aggregate k srv s e ss"
    by (cases k)
      (simp_all add: get_final_stats_eq get_restaurant_stats_eq get_delivery_stats_eq
        final_sql_cong[OF status_twice] restaurant_sql_cong[OF status_twice]
        delivery_sql_cong[OF status_twice] del: round_columns.simps)
next
  assume a: "reachable srv \<and> responsive srv \<and> (\<forall>ord \<in> set (orders srv). order_status ord \<noteq> ''delivered'')"
  then have "filter (where_holds (Status_is ''delivered'' # date_clause s e)) (orders srv) = []"
    by (simp add: no_delivered_no_match)
  with a show "fst (get_final_stats srv s e ss) = Inr zero_totals"
    by (simp add: no_match_results)
qed

theorem only_delivered_orders_count_witness:
  "fst (get_final_stats
     \<lparr>orders = [\<lparr>o_id = 1, order_amount = 120, delivery_charge = 15, additional_charge = 3,
                 order_status = ''pending'', created_at = jan 5, store_id = 1, delivery_man_id = 1\<rparr>],
      stores = [\<lparr>s_id = 1, s_name = ''Cafe X''\<rparr>],
      delivery_men = [\<lparr>dm_id = 1, l_name = ''Rao''\<rparr>],
      reachable = True, responsive = True\<rparr> None None fresh_session) = Inr zero_totals"
  using only_delivered_orders_count[of Overall
     "\<lparr>orders = [\<lparr>o_id = 1, order_amount = 120, delivery_charge = 15, additional_charge = 3,
                 order_status = ''pending'', created_at = jan 5, store_id = 1, delivery_man_id = 1\<rparr>],
      stores = [\<lparr>s_id = 1, s_name = ''Cafe X''\<rparr>],
      delivery_men = [\<lparr>dm_id = 1, l_name = ''Rao''\<rparr>],
      reachable = True, responsive = True\<rparr>" None None fresh_session]
  by simp

subsection \<open>The connection when the statement fails\<close>

text \<open>
  C7 does not hold for the code: \<^verbatim>\<open>conn.close()\<close> is the last statement before
  \<^verbatim>\<open>return\<close> and is not reached when \<^verbatim>\<open>read_sql\<close> raises. On a server that accepts
  the connection and fails while executing the statement, each of the three functions ends
  in the error with the connection it opened still open; on the same server without the
  failure the connection is closed.
\<close>

theorem connection_left_open_when_query_fails:
  "get_final_stats (demo_server\<lparr>responsive := False\<rparr>) None None fresh_session =
     (Inl DatabaseError, \<lparr>live = [0], next_handle = 1\<rparr>) \<and>
   get_restaurant_stats (demo_server\<lparr>responsive := False\<rparr>) None None fresh_session =
     (Inl DatabaseError, \<lparr>live = [0], next_handle = 1\<rparr>) \<and>
   get_delivery_stats (demo_server\<lparr>responsive := False\<rparr>) None None fresh_session =
     (Inl DatabaseError, \<lparr>live = [0], next_handle = 1\<rparr>) \<and>
   snd (get_final_stats demo_server None None fresh_session) = \<lparr>live = [], next_handle = 1\<rparr>"
  by (simp add: get_final_stats_eq get_restaurant_stats_eq get_delivery_stats_eq opened_def
      conn_close_def demo_server_def fresh_session_def del: round_columns.simps)

subsection \<open>The exported sheet and reading it back\<close>

text \<open>
  C8. For a frame with distinct column names whose rows hold one cell for each column, in
  the order of the columns, the export produces a workbook of a single sheet: its first row
  is the column names in the order of the frame, and one row follows for each row of the
  frame, cell by cell. Reading the workbook back yields a frame with the same column
  names and the same number of rows, and every cell read back has the value of the
  original cell. Every frame that one of the three aggregation queries returns is such a
  frame.
\<close>

theorem export_round_trip:
  "(well_formed df \<longrightarrow>
      sheets (export_to_excel df_to_excel df) =
        [map Text (columns df) # map (\<lambda>r. map (\<lambda>kv. cell_out (snd kv)) r) (rows df)] \<and>
      (\<exists>df'. read_excel (export_to_excel df_to_excel df) = Some df' \<and>
             columns df' = columns df \<and> length (rows df') = length (rows df) \<and>
             (\<forall>i < length (rows df). \<forall>col \<in> set (columns df).
                \<exists>a b. cell_at (rows df' ! i) col = Some a \<and> cell_at (rows df ! i) col = Some b \<and>
                      same_value a b))) \<and>
   (fst (aggregate k srv s e ss) = Inr df \<longrightarrow> well_formed df)"
proof (intro conjI impI)
  assume wf: "well_formed df"
  show "sheets (export_to_excel df_to_excel df) =
        [map Text (columns df) # map (\<lambda>r. map (\<lambda>kv. cell_out (snd kv)) r) (rows df)]"
    using wf by (rule sheet_of_frame)
  let ?df' = "\<lparr>columns = columns df,
                 rows = map (\<lambda>r. map (\<lambda>kv. (fst kv, cell_in (cell_out (snd kv)))) r) (rows df)\<rparr>"
  have cells: "\<exists>a b. cell_at (rows ?df' ! i) col = Some a \<and> cell_at (rows df ! i) col = Some b \<and>
                      same_value a b" if i: "i < length (rows df)" and col: "col \<in> set (columns df)"
    for i col
  proof -
    from well_formed_cell[OF wf i col] obtain b where b: "cell_at (rows df ! i) col = Some b" ..
    with i have "cell_at (rows ?df' ! i) col = Some (cell_in (cell_out b))"
      by (simp add: cell_at_read_back)
    with b same_value_read_back[of b] show ?thesis by blast
  qed
  have "read_excel (export_to_excel df_to_excel df) = Some ?df'"
    using wf by (rule read_back_frame)
  moreover have "columns ?df' = columns df" by simp
  moreover have "length (rows ?df') = length (rows df)" by simp
  ultimately show "\<exists>df'. read_excel (export_to_excel df_to_excel df) = Some df' \<and>
             columns df' = columns df \<and> length (rows df') = length (rows df) \<and>
             (\<forall>i < length (rows df). \<forall>col \<in> set (columns df).
                \<exists>a b. cell_at (rows df' ! i) col = Some a \<and> cell_at (rows df ! i) col = Some b \<and>
                      same_value a b)"
    using cells by blast
next
  assume "fst (aggregate k srv s e ss) = Inr df"
  then show "well_formed df" by (rule aggregate_well_formed)
qed

theorem export_round_trip_witness:
  "fst (get_restaurant_stats demo_server None None fresh_session) = Inr demo_frame \<and>
   well_formed demo_frame \<and>
   sheets (export_to_excel df_to_excel demo_frame) =
     [[[Text ''restaurant_name'', Text ''total_orders'', Text ''total_order_amount'',
        Text ''total_delivery_fee'', Text ''total_additional_charge'', Text ''total_revenue''],
       [Text ''Cafe X'', Number 3, Number 350, Number 35, Number 10, Number 305],
       [Text ''Diner Y'', Number 1, Number (8013 / 100), Number 8, Number 2, Number (7013 / 100)]]] \<and>
   (\<exists>df'. read_excel (export_to_excel df_to_excel demo_frame) = Some df' \<and>
          columns df' = columns demo_frame \<and> length (rows df') = length (rows demo_frame) \<and>
          (\<forall>i < length (rows demo_frame). \<forall>col \<in> set (columns demo_frame).
             \<exists>a b. cell_at (rows df' ! i) col = Some a \<and> cell_at (rows demo_frame ! i) col = Some b \<and>
                   same_value a b))"
proof -
  have h: "fst (aggregate Per_restaurant demo_server None None fresh_session) = Inr demo_frame"
    by (simp add: eval_defs demo_frame_def Let_def)
  note t = export_round_trip[of demo_frame Per_restaurant demo_server None None fresh_session]
  from t h have wf: "well_formed demo_frame" by blast
  from t wf have "sheets (export_to_excel df_to_excel demo_frame) =
        [map Text (columns demo_frame) #
         map (\<lambda>r. map (\<lambda>kv. cell_out (snd kv)) r) (rows demo_frame)]" by blast
  then have sh: "sheets (export_to_excel df_to_excel demo_frame) =
     [[[Text ''restaurant_name'', Text ''total_orders'', Text ''total_order_amount'',
        Text ''total_delivery_fee'', Text ''total_additional_charge'', Text ''total_revenue''],
       [Text ''Cafe X'', Number 3, Number 350, Number 35, Number 10, Number 305],
       [Text ''Diner Y'', Number 1, Number (8013 / 100), Number 8, Number 2, Number (7013 / 100)]]]"
    by (simp add: demo_frame_def restaurant_columns_def)
  from h have h': "fst (get_restaurant_stats demo_server None None fresh_session) = Inr demo_frame"
    by simp
  from t wf h' sh show ?thesis by blast
qed

subsection \<open>The name of the downloaded file\<close>



subsection \<open>An end date without a start date\<close>

text \<open>
  C10. When a call carries an end date but no start date, neither branch of the date test
  fires: the statement gets no date condition, the end date is ignored, and each of the
  three functions returns what it returns for the empty date range.
\<close>

theorem end_date_without_start_is_ignored:
  "get_final_stats srv None (Some e) ss = get_final_stats srv None None ss \<and>
   get_restaurant_stats srv None (Some e) ss = get_restaurant_stats srv None None ss \<and>
   get_delivery_stats srv None (Some e) ss = get_delivery_stats srv None None ss"
  by (simp add: get_final_stats_eq get_restaurant_stats_eq get_delivery_stats_eq date_clause_def)

end
